theory Spec2Isabelle
  imports Main "HOL-Library.Multiset"
begin

section \<open>Exceptions\<close>

text \<open>
  The exceptions the modelled code can raise. A Python call that may raise returns
  \<open>exn + 'a\<close>, with \<open>Inl\<close> for the exception. \<open>OtherError\<close> stands for any
  exception a worker or the external program may raise beyond the named ones.
\<close>

datatype exn =
    ValueError
  | TypeError
  | NameError
  | KeyError
  | FileNotFoundError
  | FileExistsError
  | NotADirectoryError
  | IsADirectoryError
  | PicklingError
  | UnpicklingError
  | OtherError string

section \<open>The process pool\<close>

text \<open>
  \<open>concurrent.futures.ProcessPoolExecutor\<close>, as far as the two dispatchers use it.
  A worker is a function of the job and of the world it runs in (file system, clock);
  it returns a value or raises, and leaves a changed world.

  The pool keeps the submitted jobs in submission order; the future of the \<open>i\<close>-th
  submitted job is the index \<open>i\<close>. \<open>finished\<close> holds the futures that have completed,
  each with its outcome, in the order in which they completed; \<open>calls\<close> holds the jobs the
  worker has been invoked on.

  Jobs run in separate processes. The model serialises them: a schedule (a list of
  future indices) says in which order the jobs complete, and each worker invocation is
  one step on the shared world. \<open>max_workers\<close> bounds how many jobs run at the same time;
  the serialised model keeps it as the pool's size and does not use it otherwise.
\<close>

type_synonym ('j, 'r, 's) worker = "'j \<Rightarrow> 's \<Rightarrow> (exn + 'r) \<times> 's"

record ('j, 'r, 's) executor =
  max_workers :: int
  work_items :: "'j list"
  finished :: "(nat \<times> (exn + 'r)) list"
  calls :: "'j list"
  world :: 's

text \<open>
  \<open>ProcessPoolExecutor(max_workers=n)\<close> raises \<open>ValueError\<close> ("max_workers must be greater
  than 0") when \<open>n \<le> 0\<close>. The argument is an integer here, as the default of the hpc
  script is; with \<open>None\<close>, which \<open>os.cpu_count()\<close> may give the default of \<open>extlib.py\<close>,
  the library chooses the size itself.
\<close>

definition ProcessPoolExecutor :: "int \<Rightarrow> 's \<Rightarrow> exn + ('j, 'r, 's) executor" where
  "ProcessPoolExecutor n w =
     (if n \<le> 0 then Inl ValueError
      else Inr \<lparr>max_workers = n, work_items = [], finished = [], calls = [], world = w\<rparr>)"

text \<open>The outcome stored in future \<open>i\<close>, if it has completed.\<close>

definition future_result :: "('j, 'r, 's) executor \<Rightarrow> nat \<rightharpoonup> exn + 'r" where
  "future_result ex i = map_of (finished ex) i"

definition submit :: "('j, 'r, 's) executor \<Rightarrow> 'j \<Rightarrow> ('j, 'r, 's) executor" where
  "submit ex j = ex\<lparr>work_items := work_items ex @ [j]\<rparr>"

text \<open>
  One job runs to completion: the worker is invoked on the job of future \<open>i\<close> in the
  current world, and its outcome is stored in the future. An index that names no
  submitted job, or a job that has already completed, changes nothing.
\<close>

definition run_job ::
  "('j, 'r, 's) worker \<Rightarrow> ('j, 'r, 's) executor \<Rightarrow> nat \<Rightarrow> ('j, 'r, 's) executor" where
  "run_job worker ex i =
     (if i < length (work_items ex) \<and> future_result ex i = None then
        (case worker (work_items ex ! i) (world ex) of
           (out, w') \<Rightarrow>
             ex\<lparr>finished := finished ex @ [(i, out)],
                calls := calls ex @ [work_items ex ! i],
                world := w'\<rparr>)
      else ex)"

definition run_pool ::
  "('j, 'r, 's) worker \<Rightarrow> nat list \<Rightarrow> ('j, 'r, 's) executor \<Rightarrow> ('j, 'r, 's) executor" where
  "run_pool worker sched ex = foldl (run_job worker) ex sched"

text \<open>
  Leaving the \<open>with\<close> block calls \<open>shutdown(wait=True)\<close>, which returns once every
  submitted job has completed, and never if one of them does not.
\<close>

definition all_done :: "('j, 'r, 's) executor \<Rightarrow> bool" where
  "all_done ex = list_all (\<lambda>i. future_result ex i \<noteq> None) [0..<length (work_items ex)]"

section \<open>Ordered dispatch (\<open>hpc/dispatch-gridmetric-jobs.py\<close>)\<close>

text \<open>
  \<^verbatim>\<open>
  def dispatch(jobs: iter, worker: Callable, max_workers=MAX_WORKERS):
      futures = []
      with ProcessPoolExecutor(max_workers=max_workers) as executor:
          futures = [executor.submit(worker, j) for j in jobs]
          results = [f.result() for f in futures]
      return results
  \<close>
  \<open>f.result()\<close> returns the worker's value or raises the worker's exception again, so the
  list comprehension stops at the first future, in submission order, whose worker raised.
\<close>

fun collect :: "(exn + 'r) list \<Rightarrow> exn + 'r list" where
  "collect [] = Inr []"
| "collect (Inl e # outs) = Inl e"
| "collect (Inr r # outs) =
     (case collect outs of Inl e \<Rightarrow> Inl e | Inr rs \<Rightarrow> Inr (r # rs))"

text \<open>
  The pool as it is when the \<open>with\<close> block is left: every job submitted, and the jobs of
  the schedule completed.
\<close>

definition dispatch_pool ::
  "nat list \<Rightarrow> 'j list \<Rightarrow> ('j, 'r, 's) worker \<Rightarrow> int \<Rightarrow> 's \<Rightarrow> exn + ('j, 'r, 's) executor" where
  "dispatch_pool sched jobs worker n w =
     (case ProcessPoolExecutor n w of
        Inl e \<Rightarrow> Inl e
      | Inr ex \<Rightarrow> Inr (run_pool worker sched (foldl submit ex jobs)))"

text \<open>
  The value of a call of \<open>dispatch\<close>: \<open>None\<close> when the call never returns (a job never
  completes), otherwise the returned list or the raised exception, with the jobs the
  worker was invoked on and the world the call leaves.
\<close>

definition dispatch ::
  "nat list \<Rightarrow> 'j list \<Rightarrow> ('j, 'r, 's) worker \<Rightarrow> int \<Rightarrow> 's \<Rightarrow>
     ((exn + 'r list) \<times> 'j list \<times> 's) option" where
  "dispatch sched jobs worker n w =
     (case dispatch_pool sched jobs worker n w of
        Inl e \<Rightarrow> Some (Inl e, [], w)
      | Inr ex \<Rightarrow>
          (case those (map (future_result ex) [0..<length (work_items ex)]) of
             None \<Rightarrow> None
           | Some outs \<Rightarrow> Some (collect outs, calls ex, world ex)))"

section \<open>The world of a worker invocation\<close>

text \<open>
  Paths are absolute, given by their components. The world holds the directories that
  exist, the regular files with their contents (bytes), and the string that
  \<open>datetime.datetime.now().strftime("%Y-%m-%d %H:%M")\<close> returns at this moment.
\<close>

type_synonym path = "string list"

record world =
  dirs :: "path set"
  files :: "path \<rightharpoonup> string"
  now :: string

definition NL :: string where
  "NL = [CHR 0x0A]"

definition str_path :: "path \<Rightarrow> string" where
  "str_path p = (if p = [] then ''/'' else concat (map (\<lambda>c. ''/'' @ c) p))"

definition path_exists :: "path \<Rightarrow> world \<Rightarrow> bool" where
  "path_exists p w \<longleftrightarrow> p \<in> dirs w \<or> files w p \<noteq> None"

text \<open>
  \<open>Path.mkdir(exist_ok=True)\<close>, with \<open>parents\<close> left at \<open>False\<close>: a missing parent raises
  \<open>FileNotFoundError\<close>; an existing directory is accepted; an existing file raises
  \<open>FileExistsError\<close>.
\<close>

definition mkdir_exist_ok :: "path \<Rightarrow> world \<Rightarrow> exn + world" where
  "mkdir_exist_ok p w =
     (if butlast p \<notin> dirs w then
        (if files w (butlast p) \<noteq> None then Inl NotADirectoryError
         else Inl FileNotFoundError)
      else if p \<in> dirs w then Inr w
      else if files w p \<noteq> None then Inl FileExistsError
      else Inr (w\<lparr>dirs := insert p (dirs w)\<rparr>))"

text \<open>
  A file opened in mode \<open>'ab'\<close> is a buffered binary writer: \<open>write\<close> takes bytes only
  (a \<open>str\<close> raises \<open>TypeError\<close>) and appends them to the buffer; \<open>flush\<close> and \<open>close\<close>
  append the buffer to the end of the file.
\<close>

datatype pyval = PyStr string | PyBytes string

record bufwriter =
  bw_path :: path
  bw_buf :: string

definition append_file :: "path \<Rightarrow> string \<Rightarrow> world \<Rightarrow> world" where
  "append_file p b w =
     w\<lparr>files := (files w)(p \<mapsto> (case files w p of None \<Rightarrow> b | Some old \<Rightarrow> old @ b))\<rparr>"

definition open_ab :: "path \<Rightarrow> world \<Rightarrow> exn + bufwriter \<times> world" where
  "open_ab p w =
     (if butlast p \<notin> dirs w then
        (if files w (butlast p) \<noteq> None then Inl NotADirectoryError
         else Inl FileNotFoundError)
      else if p \<in> dirs w then Inl IsADirectoryError
      else Inr (\<lparr>bw_path = p, bw_buf = []\<rparr>, append_file p [] w))"

definition bw_write :: "bufwriter \<Rightarrow> pyval \<Rightarrow> exn + bufwriter" where
  "bw_write f v =
     (case v of
        PyBytes b \<Rightarrow> Inr (f\<lparr>bw_buf := bw_buf f @ b\<rparr>)
      | PyStr s \<Rightarrow> Inl TypeError)"

definition bw_flush :: "bufwriter \<Rightarrow> world \<Rightarrow> bufwriter \<times> world" where
  "bw_flush f w = (f\<lparr>bw_buf := []\<rparr>, append_file (bw_path f) (bw_buf f) w)"

definition bw_close :: "bufwriter \<Rightarrow> world \<Rightarrow> world" where
  "bw_close f w = snd (bw_flush f w)"

text \<open>
  What \<open>hashlib.sha1(...).hexdigest()\<close> returns: forty hexadecimal digits.
\<close>

typedef hexdigest = "{s :: string. length s = 40 \<and> set s \<subseteq> set ''0123456789abcdef''}"
  by (rule exI [of _ "replicate 40 (CHR ''0'')"]) simp

text \<open>
  What the script takes from outside the repository: the process environment, the
  working directory, \<open>hashlib.sha1(...).hexdigest()\<close>, Python's \<open>int\<close> on a string,
  \<open>json.load\<close> on the contents of a file, and the external program. The program is given
  the command line and the world; it raises when it cannot be launched, and otherwise
  gives its combined standard output and error, its exit code, and the world it leaves
  (its artifacts, the clock).
\<close>

record sysenv =
  environ :: "string \<rightharpoonup> string"
  cwd :: path
  sha1_hexdigest :: "string \<Rightarrow> hexdigest"
  py_int :: "string \<Rightarrow> exn + int"
  json_load :: "string \<Rightarrow> exn + string list"
  process :: "string list \<Rightarrow> world \<Rightarrow> exn + (string \<times> int \<times> world)"

text \<open>Decimal numerals, as \<open>str\<close> and f-strings print integers and \<open>None\<close>.\<close>

fun str_nat :: "nat \<Rightarrow> string" where
  "str_nat n =
     (if n < 10 then [''0123456789'' ! n]
      else str_nat (n div 10) @ [''0123456789'' ! (n mod 10)])"

declare str_nat.simps [simp del]

definition str_int :: "int \<Rightarrow> string" where
  "str_int n = (if n < 0 then ''-'' @ str_nat (nat (- n)) else str_nat (nat n))"

definition str_rc :: "int option \<Rightarrow> string" where
  "str_rc rc = (case rc of None \<Rightarrow> ''None'' | Some n \<Rightarrow> str_int n)"

section \<open>The worker (\<open>hpc/dispatch-gridmetric-jobs.py\<close>)\<close>

definition MAX_WORKERS :: "sysenv \<Rightarrow> exn + int" where
  "MAX_WORKERS E =
     (case environ E ''SLURM_NTASKS'' of
        None \<Rightarrow> Inl KeyError
      | Some s \<Rightarrow> (case py_int E s of Inl e \<Rightarrow> Inl e | Inr n \<Rightarrow> Inr (n - 1)))"

definition TILE_BUFFER :: int where
  "TILE_BUFFER = 40"

definition SIF_PATH :: "sysenv \<Rightarrow> path" where
  "SIF_PATH E = cwd E @ [''bh_container.sif'']"

definition CTG_PATH :: "sysenv \<Rightarrow> path" where
  "CTG_PATH E = cwd E @ [''ctg.vpc'']"

definition DTM_PATH :: "sysenv \<Rightarrow> path" where
  "DTM_PATH E = cwd E @ [''dtm.vrt'']"

definition timestamp :: "world \<Rightarrow> string" where
  "timestamp w = now w"

text \<open>
  \<open>sp.run(cmd, stdout=log_f, stderr=log_f)\<close>: the child process writes to the file
  behind \<open>log_f\<close> directly, at its end, not through the buffer of \<open>log_f\<close>.
\<close>

definition sp_run ::
  "sysenv \<Rightarrow> string list \<Rightarrow> bufwriter \<Rightarrow> world \<Rightarrow> exn + int \<times> world" where
  "sp_run E cmd log_f w =
     (case process E cmd w of
        Inl e \<Rightarrow> Inl e
      | Inr (out, rc, w') \<Rightarrow> Inr (rc, append_file (bw_path log_f) out w'))"

text \<open>Lines 80 to 83: the digest of the descriptor names the job's directory.\<close>

definition poly_hash :: "sysenv \<Rightarrow> string \<Rightarrow> string" where
  "poly_hash E poly_wkt = Rep_hexdigest (sha1_hexdigest E poly_wkt)"

definition out_dir :: "sysenv \<Rightarrow> string \<Rightarrow> path" where
  "out_dir E poly_wkt = cwd E @ [''export'', poly_hash E poly_wkt]"

definition done_path :: "sysenv \<Rightarrow> string \<Rightarrow> path" where
  "done_path E poly_wkt = out_dir E poly_wkt @ [''DONE'']"

definition log_path :: "sysenv \<Rightarrow> string \<Rightarrow> path" where
  "log_path E poly_wkt = out_dir E poly_wkt @ [''gen-gridmet+chms.log'']"

text \<open>Lines 86 to 104, given the value of \<open>os.environ["SLURM_CPUS_PER_TASK"]\<close>.\<close>

definition cmd :: "sysenv \<Rightarrow> string \<Rightarrow> string \<Rightarrow> string list" where
  "cmd E cpus poly_wkt =
     [''srun'',
      ''--export=all'',
      ''--exclusive'',
      ''--nodes=1'',
      ''--ntasks=1'',
      ''--cpus-per-task='' @ cpus,
      ''--cpu-bind=cores'',
      ''apptainer'', ''exec'',
      ''--writable-tmpfs'',
      str_path (SIF_PATH E),
      ''/bh/04-grid-metrics/gen-gridmet+chms.R'',
      ''--dtm-path'', str_path (DTM_PATH E),
      ''--max-threads'', cpus,
      str_path (CTG_PATH E),
      str_path (out_dir E poly_wkt),
      poly_wkt,
      str_int TILE_BUFFER]"

definition log_header :: "string \<Rightarrow> world \<Rightarrow> string" where
  "log_header poly_wkt w =
     ''JOB: '' @ poly_wkt @ NL @ ''STARTING: '' @ timestamp w @ NL @ NL"

definition log_footer :: "int option \<Rightarrow> world \<Rightarrow> string" where
  "log_footer rc w =
     NL @ ''FINISHED: '' @ timestamp w @ NL @ ''EXIT CODE: '' @ str_rc rc @ NL"

text \<open>
  \<^verbatim>\<open>
  log_path = out_dir / "gen-gridmet+chms.log"
  with log_path.open('ab') as log_f:
      log_header = (f"JOB: {poly_wkt}\n" f"STARTING: {timestamp()}\n\n")
      log_f.write(bytes(log_header, 'utf8'))
      log_f.flush()
      if (out_dir / "DONE").exists():
          log_f.write("Found DONE file (job already complete)\n")
          rc = None
      else:
          p = sp.run(cmd, stdout=log_f, stderr=log_f)
          rc = p.returncode
      log_footer = (f"\nFINISHED: {timestamp()}\n" f"EXIT CODE: {rc}\n")
      log_f.write(bytes(log_footer, 'utf8'))
  return rc
  \<close>
  Lines 109 to 135, the body of the \<open>with\<close> block: the value \<open>rc\<close> or the exception that
  leaves the block, with the writer and the world at that point. The first and the last
  write pass bytes; the write of line 119 passes a \<open>str\<close>.
\<close>

definition worker_logged ::
  "sysenv \<Rightarrow> string \<Rightarrow> string list \<Rightarrow> bufwriter \<Rightarrow> world \<Rightarrow>
     (exn + int option) \<times> bufwriter \<times> world" where
  "worker_logged E poly_wkt c log_f w =
     (case bw_write log_f (PyBytes (log_header poly_wkt w)) of
        Inl e \<Rightarrow> (Inl e, log_f, w)
      | Inr f1 \<Rightarrow>
          (case bw_flush f1 w of
             (f2, w2) \<Rightarrow>
               (case
                  (if path_exists (done_path E poly_wkt) w2 then
                     (case bw_write f2 (PyStr (''Found DONE file (job already complete)'' @ NL)) of
                        Inl e \<Rightarrow> Inl e
                      | Inr f3 \<Rightarrow> Inr (None, f3, w2))
                   else
                     (case sp_run E c f2 w2 of
                        Inl e \<Rightarrow> Inl e
                      | Inr (rc, w3) \<Rightarrow> Inr (Some rc, f2, w3)))
                of
                  Inl e \<Rightarrow> (Inl e, f2, w2)
                | Inr (rc, f4, w4) \<Rightarrow>
                    (case bw_write f4 (PyBytes (log_footer rc w4)) of
                       Inl e \<Rightarrow> (Inl e, f4, w4)
                     | Inr f5 \<Rightarrow> (Inr rc, f5, w4)))))"

text \<open>
  The whole function. Leaving the \<open>with\<close> block closes the log, on a return and on an
  exception alike.
\<close>

definition grid_metrics_chm_worker :: "sysenv \<Rightarrow> (string, int option, world) worker" where
  "grid_metrics_chm_worker E poly_wkt w =
     (case mkdir_exist_ok (out_dir E poly_wkt) w of
        Inl e \<Rightarrow> (Inl e, w)
      | Inr w1 \<Rightarrow>
          (case environ E ''SLURM_CPUS_PER_TASK'' of
             None \<Rightarrow> (Inl KeyError, w1)
           | Some cpus \<Rightarrow>
               (case open_ab (log_path E poly_wkt) w1 of
                  Inl e \<Rightarrow> (Inl e, w1)
                | Inr (log_f, w2) \<Rightarrow>
                    (case worker_logged E poly_wkt (cmd E cpus poly_wkt) log_f w2 of
                       (res, f, w3) \<Rightarrow> (res, bw_close f w3)))))"

text \<open>
  \<^verbatim>\<open>
  with open("./wkt.json") as f:
      wkt_list = json.load(f)
  dispatch(wkt_list, grid_metrics_chm_worker)
  log.info("Finished")
  \<close>
  Running the script: the module constants are evaluated, then \<open>main\<close> reads \<open>wkt.json\<close>
  and calls \<open>dispatch\<close>, whose value it drops. The result is the exit status of the
  process: 0 when \<open>main\<close> returns, 1 when an exception is not caught, \<open>None\<close> when the
  script never ends.
\<close>

definition main :: "sysenv \<Rightarrow> nat list \<Rightarrow> world \<Rightarrow> int option" where
  "main E sched w =
     (case MAX_WORKERS E of
        Inl e \<Rightarrow> Some 1
      | Inr n \<Rightarrow>
          (case files w (cwd E @ [''wkt.json'']) of
             None \<Rightarrow> Some 1
           | Some text \<Rightarrow>
               (case json_load E text of
                  Inl e \<Rightarrow> Some 1
                | Inr wkt_list \<Rightarrow>
                    (case dispatch sched wkt_list (grid_metrics_chm_worker E) n w of
                       None \<Rightarrow> None
                     | Some (Inl e, cs, w') \<Rightarrow> Some 1
                     | Some (Inr rs, cs, w') \<Rightarrow> Some 0))))"

section \<open>Streaming dispatch (\<open>lib/py/vogeler/extlib.py\<close>)\<close>

text \<open>
  \<open>dill\<close> is not part of the repository: its two functions are parameters. \<open>dumps\<close>
  turns a callable into bytes or raises; \<open>loads\<close> turns bytes into a callable or raises.
\<close>

record ('b, 'f) dill =
  dumps :: "'f \<Rightarrow> exn + 'b"
  loads :: "'b \<Rightarrow> exn + 'f"

text \<open>
  \<^verbatim>\<open>
  def run_dill(fn: Callable, *args, **kwargs) -> Any:
      return dill.loads(fn)(*args, **kwargs)
  \<close>
  \<open>dispatch\<close> calls it with one positional argument, the job.
\<close>

definition run_dill ::
  "('b, ('j, 'r, 's) worker) dill \<Rightarrow> 'b \<Rightarrow> ('j, 'r, 's) worker" where
  "run_dill D fn j w = (case loads D fn of Inl e \<Rightarrow> (Inl e, w) | Inr f \<Rightarrow> f j w)"

text \<open>
  The names that \<open>extlib.py\<close> binds at module level: its imports, its constant and its
  functions.
\<close>

definition extlib_globals :: "string list" where
  "extlib_globals =
     [''os'', ''json'', ''functools'', ''Path'', ''ERROR'', ''ProcessPoolExecutor'',
      ''as_completed'', ''Any'', ''Callable'', ''Iterator'', ''dill'', ''pyogrio'', ''np'',
      ''pd'', ''rio'', ''fillnodata'', ''GeoDataFrame'', ''force_2d'', ''shape'',
      ''importr'', ''rpy2_logger'', ''rbase'', ''rmethods'', ''MAX_WORKERS'', ''run_dill'',
      ''dispatch'', ''catgdf'', ''catshp'', ''fill_grid_na'', ''tif_m2ft'',
      ''update_crs_metadata'', ''vpc2df'', ''get_field_and_fvs_data_from_src'',
      ''order_df_cols_by_mean'']"

text \<open>
  A global name is found when the module binds it or when a caller has added it to the
  module's namespace (\<open>extra\<close>). Python's builtins, searched last, have no \<open>log\<close>.
\<close>

definition name_bound :: "string list \<Rightarrow> string \<Rightarrow> bool" where
  "name_bound extra x \<longleftrightarrow> x \<in> set (extlib_globals @ extra)"

text \<open>
  How a generator that is run to its end can end: it returns, it raises, or it waits
  for ever for a job that never completes.
\<close>

datatype gen_end = StopIteration | Raised exn | Blocked

text \<open>
  An exception inside the \<open>with\<close> block leaves it through \<open>shutdown(wait=True)\<close>.
\<close>

definition leave :: "bool \<Rightarrow> exn \<Rightarrow> gen_end" where
  "leave done e = (if done then Raised e else Blocked)"

text \<open>
  \<^verbatim>\<open>
  for f in as_completed(futures_jobs):
      log.info("Worker finished: %s", futures_jobs[f])
      yield (futures_jobs[f], f.result())
  \<close>
  \<open>as_completed\<close> gives the futures in the order in which they complete, and then waits for
  the ones that have not. The loop body first reads the global name \<open>log\<close>.
\<close>

fun as_completed_loop ::
  "bool \<Rightarrow> (nat \<times> 'j) list \<Rightarrow> bool \<Rightarrow> (nat \<times> (exn + 'r)) list \<Rightarrow> ('j \<times> 'r) list \<times> gen_end" where
  "as_completed_loop lg futures_jobs done [] =
     ([], if done then StopIteration else Blocked)"
| "as_completed_loop lg futures_jobs done ((f, out) # rest) =
     (if \<not> lg then ([], leave done NameError)
      else
        (case map_of futures_jobs f of
           None \<Rightarrow> ([], leave done KeyError)
         | Some j \<Rightarrow>
             (case out of
                Inl e \<Rightarrow> ([], leave done e)
              | Inr r \<Rightarrow>
                  (case as_completed_loop lg futures_jobs done rest of
                     (ys, g) \<Rightarrow> ((j, r) # ys, g)))))"

text \<open>
  \<^verbatim>\<open>
  def dispatch(jobs: iter, worker: Callable, max_workers=MAX_WORKERS):
      worker = functools.partial(run_dill, dill.dumps(worker))  # Allow lambdas
      with ProcessPoolExecutor(max_workers=max_workers) as executor:
          futures_jobs = {executor.submit(worker, j): j for j in jobs}
          for f in as_completed(futures_jobs):
              ...
  \<close>
  The generator run to its end: the pairs it yields and how it ends, with the jobs the
  worker was invoked on and the world left.
\<close>

definition extlib_dispatch ::
  "('b, ('j, 'r, 's) worker) dill \<Rightarrow> string list \<Rightarrow> nat list \<Rightarrow> 'j list \<Rightarrow>
     ('j, 'r, 's) worker \<Rightarrow> int \<Rightarrow> 's \<Rightarrow> (('j \<times> 'r) list \<times> gen_end) \<times> 'j list \<times> 's" where
  "extlib_dispatch D extra sched jobs worker n w =
     (case dumps D worker of
        Inl e \<Rightarrow> (([], Raised e), [], w)
      | Inr fn \<Rightarrow>
          (case dispatch_pool sched jobs (run_dill D fn) n w of
             Inl e \<Rightarrow> (([], Raised e), [], w)
           | Inr ex \<Rightarrow>
               (as_completed_loop (name_bound extra ''log'')
                  (zip [0..<length jobs] jobs) (all_done ex) (finished ex),
                calls ex, world ex)))"

section \<open>Auxiliary notions\<close>

text \<open>
  What holds of a pool at every moment of its life: a completed future belongs to a
  submitted job and holds an outcome of the worker on that job, no future completes
  twice, and the worker has been invoked exactly on the jobs of the completed futures.
\<close>

definition pool_inv :: "('j, 'r, 's) worker \<Rightarrow> ('j, 'r, 's) executor \<Rightarrow> bool" where
  "pool_inv worker ex \<longleftrightarrow>
     (\<forall>i out. (i, out) \<in> set (finished ex) \<longrightarrow>
        i < length (work_items ex) \<and> (\<exists>w'. fst (worker (work_items ex ! i) w') = out)) \<and>
     distinct (map fst (finished ex)) \<and>
     calls ex = map (\<lambda>i. work_items ex ! i) (map fst (finished ex))"

text \<open>
  A world in which the worker gets as far as its log: \<open>./export\<close> exists, the job's
  directory can be made, the log can be opened, and the environment names the number of
  cores.
\<close>

definition job_ready :: "sysenv \<Rightarrow> string \<Rightarrow> world \<Rightarrow> bool" where
  "job_ready E poly_wkt w \<longleftrightarrow>
     cwd E @ [''export''] \<in> dirs w \<and>
     files w (out_dir E poly_wkt) = None \<and>
     log_path E poly_wkt \<notin> dirs w \<and>
     environ E ''SLURM_CPUS_PER_TASK'' \<noteq> None"

text \<open>
  The world in which the external program is started: the job's directory made, the log
  opened, the header written and flushed.
\<close>

definition prepared :: "sysenv \<Rightarrow> string \<Rightarrow> world \<Rightarrow> world" where
  "prepared E poly_wkt w =
     append_file (log_path E poly_wkt) (log_header poly_wkt w)
       (append_file (log_path E poly_wkt) []
          (w\<lparr>dirs := insert (out_dir E poly_wkt) (dirs w)\<rparr>))"

text \<open>The contents of a file, empty when there is none.\<close>

definition contents :: "world \<Rightarrow> path \<Rightarrow> string" where
  "contents w p = (case files w p of None \<Rightarrow> [] | Some b \<Rightarrow> b)"

section \<open>Concrete inputs\<close>

text \<open>A worker that returns a value computed from the job and notes the job in the world.\<close>

definition echo_worker :: "(string, string, string list) worker" where
  "echo_worker j w = (Inr (j @ ''!''), w @ [j])"

text \<open>A worker that raises on the job \<open>B\<close>.\<close>

definition picky_worker :: "(string, string, string list) worker" where
  "picky_worker j w =
     (if j = ''B'' then (Inl (OtherError ''bad job''), w @ [j]) else (Inr (j @ ''!''), w @ [j]))"

text \<open>A serialiser that hands the callable over as it is.\<close>

definition dill_id :: "(('j, 'r, 's) worker, ('j, 'r, 's) worker) dill" where
  "dill_id = \<lparr>dumps = Inr, loads = Inr\<rparr>"

text \<open>The two job descriptors of the scenario in section 8 of the specification.\<close>

definition tile1 :: string where
  "tile1 = ''POLYGON((0 0,1 0,1 1,0 1,0 0))''"

definition tile2 :: string where
  "tile2 = ''POLYGON((2 2,3 2,3 3,2 3,2 2))''"

text \<open>The SHA-1 digests of the two descriptors, as \<open>hashlib\<close> computes them.\<close>

definition sha1_known :: "string \<Rightarrow> hexdigest" where
  "sha1_known s =
     (if s = tile1 then Abs_hexdigest ''3ba435b4b1ca6000b9850091d18814c4305817de''
      else if s = tile2 then Abs_hexdigest ''d38163975910e1a611c93f5c3e8886419d4e75a2''
      else Abs_hexdigest (replicate 40 (CHR ''0'')))"

definition int_known :: "string \<Rightarrow> exn + int" where
  "int_known s =
     (if s = ''1'' then Inr 1 else if s = ''2'' then Inr 2 else if s = ''4'' then Inr 4
      else Inl ValueError)"

text \<open>The components of the path that a string names.\<close>

definition split_path :: "string \<Rightarrow> path" where
  "split_path s =
     filter (\<lambda>c. c \<noteq> [])
       (foldr (\<lambda>ch acc.
                 if ch = CHR ''/'' then [] # acc
                 else (case acc of [] \<Rightarrow> [[ch]] | a # as \<Rightarrow> (ch # a) # as))
          s [[]])"

text \<open>
  Modelled from the spec: the external program \<open>gen-gridmet+chms.R\<close>, which the worker
  starts and which is not among the sources. Section 6 gives its contract: it is called
  with the output directory as the eighteenth word of the command line, it returns an
  exit code, 0 for success, and the job's directory holds a \<open>DONE\<close> file once the job has
  succeeded. This program succeeds and writes the marker as its last step.
\<close>

definition r_program :: "string list \<Rightarrow> world \<Rightarrow> exn + (string \<times> int \<times> world)" where
  "r_program c w =
     (case drop 17 c of
        [] \<Rightarrow> Inr (''usage'' @ NL, 2, w)
      | d # rest \<Rightarrow>
          Inr (''metrics written'' @ NL, 0,
               w\<lparr>files := (files w)(split_path d @ [''DONE''] \<mapsto> [])\<rparr>))"

text \<open>An external program that fails with exit code 1 and leaves no marker.\<close>

definition r_program_exit1 :: "string list \<Rightarrow> world \<Rightarrow> exn + (string \<times> int \<times> world)" where
  "r_program_exit1 c w = Inr (''Execution halted'' @ NL, 1, w)"

text \<open>An external program that cannot be started: \<open>srun\<close> is not installed.\<close>

definition r_program_missing :: "string list \<Rightarrow> world \<Rightarrow> exn + (string \<times> int \<times> world)" where
  "r_program_missing c w = Inl FileNotFoundError"

definition env_ok :: sysenv where
  "env_ok =
     \<lparr>environ = [''SLURM_NTASKS'' \<mapsto> ''2'', ''SLURM_CPUS_PER_TASK'' \<mapsto> ''4''],
      cwd = [''bh''],
      sha1_hexdigest = sha1_known,
      py_int = int_known,
      json_load = (\<lambda>text. Inr [tile1, tile2]),
      process = r_program\<rparr>"

definition env_exit1 :: sysenv where
  "env_exit1 = env_ok\<lparr>process := r_program_exit1\<rparr>"

definition env_missing :: sysenv where
  "env_missing = env_ok\<lparr>process := r_program_missing\<rparr>"

text \<open>A fresh working directory: \<open>./export\<close> is there and empty, \<open>wkt.json\<close> holds the jobs.\<close>

definition world0 :: world where
  "world0 =
     \<lparr>dirs = {[''bh''], [''bh'', ''export'']},
      files = [[''bh'', ''wkt.json''] \<mapsto> ''[...]''],
      now = ''2025-06-01 12:00''\<rparr>"

text \<open>The world that a first run of the two jobs leaves, with the program that succeeds.\<close>

definition world1 :: world where
  "world1 =
     (case dispatch [0, 1] [tile1, tile2] (grid_metrics_chm_worker env_ok) 1 world0 of
        None \<Rightarrow> world0
      | Some (res, cs, w) \<Rightarrow> w)"

section \<open>Properties of the pool\<close>


lemma run_job_static [simp]:
  "work_items (run_job worker ex i) = work_items ex"
  "max_workers (run_job worker ex i) = max_workers ex"
  by (simp_all add: run_job_def split: prod.splits)

lemma run_pool_static [simp]:
  "work_items (run_pool worker sched ex) = work_items ex"
  "max_workers (run_pool worker sched ex) = max_workers ex"
  unfolding run_pool_def by (induction sched arbitrary: ex) simp_all

lemma submit_all [simp]:
  "work_items (foldl submit ex jobs) = work_items ex @ jobs"
  "max_workers (foldl submit ex jobs) = max_workers ex"
  "finished (foldl submit ex jobs) = finished ex"
  "calls (foldl submit ex jobs) = calls ex"
  "world (foldl submit ex jobs) = world ex"
  by (induction jobs arbitrary: ex) (simp_all add: submit_def)

lemma run_pool_Nil [simp]: "run_pool worker [] ex = ex"
  by (simp add: run_pool_def)

lemma run_pool_Cons [simp]:
  "run_pool worker (i # sched) ex = run_pool worker sched (run_job worker ex i)"
  by (simp add: run_pool_def)

lemma run_job_keeps:
  "future_result ex i = Some out \<Longrightarrow> future_result (run_job worker ex k) i = Some out"
  by (auto simp: run_job_def future_result_def map_add_def split: prod.splits option.splits)

lemma run_pool_keeps:
  "future_result ex i = Some out \<Longrightarrow> future_result (run_pool worker sched ex) i = Some out"
  by (induction sched arbitrary: ex) (simp_all add: run_job_keeps)

lemma run_job_completes:
  "i < length (work_items ex) \<Longrightarrow> future_result (run_job worker ex i) i \<noteq> None"
  by (auto simp: run_job_def future_result_def map_add_def split: prod.splits)

lemma run_pool_completes:
  "i \<in> set sched \<Longrightarrow> i < length (work_items ex) \<Longrightarrow>
   future_result (run_pool worker sched ex) i \<noteq> None"
proof (induction sched arbitrary: ex)
  case Nil
  then show ?case by simp
next
  case (Cons k sched)
  show ?case
  proof (cases "k = i")
    case True
    with Cons.prems obtain out where "future_result (run_job worker ex k) i = Some out"
      using run_job_completes [of i ex worker] by auto
    then have "future_result (run_pool worker sched (run_job worker ex k)) i = Some out"
      by (rule run_pool_keeps)
    then show ?thesis by simp
  next
    case False
    with Cons.prems have "i \<in> set sched" by simp
    moreover have "i < length (work_items (run_job worker ex k))"
      using Cons.prems by simp
    ultimately have "future_result (run_pool worker sched (run_job worker ex k)) i \<noteq> None"
      by (rule Cons.IH)
    then show ?thesis by simp
  qed
qed

lemma run_job_stays_undone:
  "future_result (run_job worker ex k) i \<noteq> None \<Longrightarrow> i \<noteq> k \<Longrightarrow> future_result ex i \<noteq> None"
  by (auto simp: run_job_def future_result_def split: prod.splits if_splits)

lemma run_pool_only_scheduled:
  "i \<notin> set sched \<Longrightarrow> future_result ex i = None \<Longrightarrow>
   future_result (run_pool worker sched ex) i = None"
proof (induction sched arbitrary: ex)
  case Nil
  then show ?case by simp
next
  case (Cons k sched)
  then have "i \<noteq> k" and "i \<notin> set sched" by auto
  with Cons.prems have "future_result (run_job worker ex k) i = None"
    using run_job_stays_undone [of worker ex k i] by blast
  with \<open>i \<notin> set sched\<close> show ?case by (simp add: Cons.IH)
qed

lemma pool_inv_run_job: "pool_inv worker ex \<Longrightarrow> pool_inv worker (run_job worker ex i)"
  unfolding pool_inv_def run_job_def future_result_def
  by (auto split: prod.splits simp: map_of_eq_None_iff) (metis fst_conv)

lemma pool_inv_run_pool: "pool_inv worker ex \<Longrightarrow> pool_inv worker (run_pool worker sched ex)"
  by (induction sched arbitrary: ex) (simp_all add: pool_inv_run_job)

lemma pool_inv_init:
  "ProcessPoolExecutor n w = Inr ex \<Longrightarrow> pool_inv worker (foldl submit ex jobs)"
  by (auto simp: ProcessPoolExecutor_def pool_inv_def split: if_splits)

lemma pool_inv_result:
  "pool_inv worker ex \<Longrightarrow> future_result ex i = Some out \<Longrightarrow>
   i < length (work_items ex) \<and> (\<exists>w'. fst (worker (work_items ex ! i) w') = out)"
  unfolding pool_inv_def future_result_def by (blast dest: map_of_SomeD)

lemma pool_inv_calls:
  assumes "pool_inv worker ex" and "\<forall>i<length (work_items ex). future_result ex i \<noteq> None"
  shows "mset (calls ex) = mset (work_items ex)"
proof -
  let ?fs = "map fst (finished ex)"
  let ?n = "length (work_items ex)"
  from assms(1) have d: "distinct ?fs" and c: "calls ex = map (\<lambda>i. work_items ex ! i) ?fs"
    and r: "\<forall>i\<in>set ?fs. i < ?n"
    unfolding pool_inv_def by auto
  have "set ?fs = set [0..<?n]"
  proof
    show "set ?fs \<subseteq> set [0..<?n]" using r by auto
    show "set [0..<?n] \<subseteq> set ?fs"
    proof
      fix i assume "i \<in> set [0..<?n]"
      then have "future_result ex i \<noteq> None" using assms(2) by simp
      then show "i \<in> set ?fs"
        by (simp add: future_result_def map_of_eq_None_iff)
    qed
  qed
  with d have "mset ?fs = mset [0..<?n]"
    by (metis distinct_upt set_eq_iff_mset_eq_distinct)
  then have "mset (map (\<lambda>i. work_items ex ! i) ?fs) = mset (map (\<lambda>i. work_items ex ! i) [0..<?n])"
    by (metis mset_map)
  then show ?thesis by (simp add: c map_nth)
qed

lemma those_all:
  "(\<forall>x\<in>set xs. x \<noteq> None) \<Longrightarrow> those xs = Some (map the xs)"
  by (induction xs) auto

lemma those_None:
  "None \<in> set xs \<Longrightarrow> those xs = None"
  by (induction xs) (auto split: option.splits)

lemma collect_all:
  "(\<forall>out\<in>set outs. \<exists>r. out = Inr r) \<Longrightarrow> collect outs = Inr (map projr outs)"
  by (induction outs rule: collect.induct) auto

lemma collect_first_raise:
  "i < length outs \<Longrightarrow> outs ! i = Inl e \<Longrightarrow> (\<forall>k<i. \<exists>r. outs ! k = Inr r) \<Longrightarrow>
   collect outs = Inl e"
proof (induction outs arbitrary: i rule: collect.induct)
  case 1
  then show ?case by simp
next
  case (2 e' outs)
  then show ?case by (cases i) auto
next
  case (3 r outs)
  then show ?case
    by (cases i) (auto split: sum.splits, fastforce+)
qed

text \<open>The pool of a dispatch whose jobs all complete.\<close>

lemma dispatch_pool_done:
  assumes "1 \<le> n" and "\<forall>i<length jobs. i \<in> set sched"
  shows "\<exists>ex. dispatch_pool sched jobs (worker :: ('j, 'r, 's) worker) n w = Inr ex \<and>
           work_items ex = jobs \<and>
           max_workers ex = n \<and> pool_inv worker ex \<and>
           (\<forall>i<length jobs. future_result ex i \<noteq> None)"
proof -
  let ?init = "\<lparr>max_workers = n, work_items = [], finished = [], calls = [], world = w\<rparr>
                :: ('j, 'r, 's) executor"
  let ?ex = "run_pool worker sched (foldl submit ?init jobs)"
  from assms(1) have p: "ProcessPoolExecutor n w = Inr ?init"
    by (simp add: ProcessPoolExecutor_def)
  then have "dispatch_pool sched jobs worker n w = Inr ?ex"
    by (simp add: dispatch_pool_def)
  moreover have "work_items ?ex = jobs" and "max_workers ?ex = n" by simp_all
  moreover have "pool_inv worker ?ex"
    using p by (intro pool_inv_run_pool pool_inv_init)
  moreover have "\<forall>i<length jobs. future_result ?ex i \<noteq> None"
    using assms(2) by (simp add: run_pool_completes)
  ultimately show ?thesis by blast
qed

lemma dispatch_done:
  assumes "1 \<le> n" and "\<forall>i<length jobs. i \<in> set sched"
  shows "\<exists>outs cs w'. dispatch sched jobs worker n w = Some (collect outs, cs, w') \<and>
           length outs = length jobs \<and> mset cs = mset jobs \<and>
           (\<forall>i<length jobs. \<exists>wi. fst (worker (jobs ! i) wi) = outs ! i)"
proof -
  from dispatch_pool_done [OF assms, of worker w] obtain ex where
    ex: "dispatch_pool sched jobs worker n w = Inr ex" "work_items ex = jobs"
        "pool_inv worker ex" "\<forall>i<length jobs. future_result ex i \<noteq> None"
    by blast
  let ?fs = "map (future_result ex) [0..<length jobs]"
  let ?outs = "map the ?fs"
  have "those ?fs = Some ?outs"
    using ex(4) by (intro those_all) auto
  then have "dispatch sched jobs worker n w = Some (collect ?outs, calls ex, world ex)"
    by (simp add: dispatch_def ex(1,2))
  moreover have "length ?outs = length jobs" by simp
  moreover have "mset (calls ex) = mset jobs"
    using pool_inv_calls [OF ex(3)] ex(2,4) by simp
  moreover have "\<forall>i<length jobs. \<exists>wi. fst (worker (jobs ! i) wi) = ?outs ! i"
  proof (intro allI impI)
    fix i assume i: "i < length jobs"
    with ex(4) obtain out where out: "future_result ex i = Some out" by auto
    from pool_inv_result [OF ex(3) out] ex(2) obtain wi where
      "fst (worker (jobs ! i) wi) = out" by auto
    with i out show "\<exists>wi. fst (worker (jobs ! i) wi) = ?outs ! i" by auto
  qed
  ultimately show ?thesis by blast
qed

lemma dispatch_blocks:
  assumes "1 \<le> n" and "i < length jobs" and "i \<notin> set sched"
  shows "dispatch sched jobs (worker :: ('j, 'r, 's) worker) n w = None"
proof -
  let ?init = "\<lparr>max_workers = n, work_items = [], finished = [], calls = [], world = w\<rparr>
                :: ('j, 'r, 's) executor"
  let ?ex = "run_pool worker sched (foldl submit ?init jobs)"
  from assms(1) have p: "dispatch_pool sched jobs worker n w = Inr ?ex"
    by (simp add: ProcessPoolExecutor_def dispatch_pool_def)
  have "future_result ?ex i = None"
    using assms(3) by (intro run_pool_only_scheduled) (simp_all add: future_result_def)
  then have "None \<in> set (map (future_result ?ex) [0..<length jobs])"
    using assms(2) by (auto simp: image_iff intro!: bexI [of _ i])
  then have "those (map (future_result ?ex) [0..<length jobs]) = None"
    by (rule those_None)
  then show ?thesis by (simp add: dispatch_def p)
qed

section \<open>Properties of ordered dispatch and of the digest\<close>

lemma dispatch_of_pool:
  assumes "dispatch_pool sched jobs worker n w = Inr ex" and "work_items ex = jobs"
    and "\<forall>i<length jobs. future_result ex i \<noteq> None"
  shows "dispatch sched jobs worker n w =
     Some (collect (map (\<lambda>i. the (future_result ex i)) [0..<length jobs]), calls ex, world ex)"
proof -
  have "those (map (future_result ex) [0..<length jobs]) =
      Some (map the (map (future_result ex) [0..<length jobs]))"
    using assms(3) by (intro those_all) auto
  then show ?thesis
    by (simp add: dispatch_def assms(1,2) comp_def)
qed

lemma MAX_WORKERS_default:
  "environ E ''SLURM_NTASKS'' = Some s \<Longrightarrow> py_int E s = Inr v \<Longrightarrow> MAX_WORKERS E = Inr (v - 1)"
  by (simp add: MAX_WORKERS_def)




section \<open>Properties of the worker\<close>

lemma append_file_simps [simp]:
  "dirs (append_file p b w) = dirs w"
  "now (append_file p b w) = now w"
  "files (append_file p b w) q = (if q = p then Some (contents w p @ b) else files w q)"
  by (simp_all add: append_file_def contents_def split: option.splits)

lemma contents_append_file [simp]:
  "contents (append_file p b w) q = (if q = p then contents w p @ b else contents w q)"
  by (simp add: contents_def)

lemma path_simps [simp]:
  "butlast (out_dir E j) = cwd E @ [''export'']"
  "butlast (log_path E j) = out_dir E j"
  "log_path E j \<noteq> out_dir E j"
  "done_path E j \<noteq> out_dir E j"
  "done_path E j \<noteq> log_path E j"
  by (simp_all add: out_dir_def log_path_def done_path_def butlast_append)

lemma mkdir_ready:
  "job_ready E j w \<Longrightarrow>
   mkdir_exist_ok (out_dir E j) w = Inr (w\<lparr>dirs := insert (out_dir E j) (dirs w)\<rparr>)"
  by (simp add: job_ready_def mkdir_exist_ok_def insert_absorb)

lemma open_ready:
  "job_ready E j w \<Longrightarrow>
   open_ab (log_path E j) (w\<lparr>dirs := insert (out_dir E j) (dirs w)\<rparr>) =
     Inr (\<lparr>bw_path = log_path E j, bw_buf = []\<rparr>,
          append_file (log_path E j) [] (w\<lparr>dirs := insert (out_dir E j) (dirs w)\<rparr>))"
  by (simp add: job_ready_def open_ab_def)

lemma prepared_simps [simp]:
  "dirs (prepared E j w) = insert (out_dir E j) (dirs w)"
  "now (prepared E j w) = now w"
  "contents (prepared E j w) (log_path E j) = contents w (log_path E j) @ log_header j w"
  "path_exists (done_path E j) (prepared E j w) = path_exists (done_path E j) w"
  by (simp_all add: prepared_def path_exists_def contents_def)

lemma log_header_now: "now w' = now w \<Longrightarrow> log_header j w' = log_header j w"
  by (simp add: log_header_def timestamp_def)

lemma log_footer_now: "now w' = now w \<Longrightarrow> log_footer rc w' = log_footer rc w"
  by (simp add: log_footer_def timestamp_def)

text \<open>The body of the \<open>with\<close> block, started on the freshly opened log.\<close>

lemma worker_logged_ready:
  "worker_logged E j c \<lparr>bw_path = log_path E j, bw_buf = []\<rparr>
     (append_file (log_path E j) [] (w\<lparr>dirs := insert (out_dir E j) (dirs w)\<rparr>)) =
   (if path_exists (done_path E j) w then
      (Inl TypeError, \<lparr>bw_path = log_path E j, bw_buf = []\<rparr>, prepared E j w)
    else
      (case process E c (prepared E j w) of
         Inl e \<Rightarrow> (Inl e, \<lparr>bw_path = log_path E j, bw_buf = []\<rparr>, prepared E j w)
       | Inr (out, rc, w') \<Rightarrow>
           (Inr (Some rc),
            \<lparr>bw_path = log_path E j, bw_buf = log_footer (Some rc) w'\<rparr>,
            append_file (log_path E j) out w')))"
proof -
  let ?w2 = "append_file (log_path E j) [] (w\<lparr>dirs := insert (out_dir E j) (dirs w)\<rparr>)"
  have h: "log_header j ?w2 = log_header j w"
    by (rule log_header_now) simp
  have p: "append_file (log_path E j) (log_header j w) ?w2 = prepared E j w"
    by (simp add: prepared_def)
  have d: "path_exists (done_path E j) (prepared E j w) = path_exists (done_path E j) w"
    by simp
  have f: "\<And>rc out w'. log_footer rc (append_file (log_path E j) out w') = log_footer rc w'"
    by (rule log_footer_now) simp
  show ?thesis
    unfolding worker_logged_def
    by (simp add: bw_write_def bw_flush_def h p d f sp_run_def split: sum.splits prod.splits)
qed

text \<open>
  The worker in a world where it reaches its log: with the marker it raises at the write
  of line 119; without it, it starts the external program in the prepared world.
\<close>

lemma worker_ready:
  assumes "job_ready E j w" and "environ E ''SLURM_CPUS_PER_TASK'' = Some cpus"
  shows "grid_metrics_chm_worker E j w =
     (if path_exists (done_path E j) w then
        (Inl TypeError, append_file (log_path E j) [] (prepared E j w))
      else
        (case process E (cmd E cpus j) (prepared E j w) of
           Inl e \<Rightarrow> (Inl e, append_file (log_path E j) [] (prepared E j w))
         | Inr (out, rc, w') \<Rightarrow>
             (Inr (Some rc),
              append_file (log_path E j) (log_footer (Some rc) w')
                (append_file (log_path E j) out w'))))"
  unfolding grid_metrics_chm_worker_def
  by (simp add: mkdir_ready [OF assms(1)] open_ready [OF assms(1)] assms(2)
      worker_logged_ready bw_close_def bw_flush_def split: sum.splits prod.splits)

section \<open>Properties of the streaming loop\<close>

lemma run_pool_no_jobs:
  "work_items ex = [] \<Longrightarrow> run_pool worker sched ex = ex"
  by (induction sched) (simp_all add: run_job_def)

lemma futures_jobs_lookup:
  "i < length jobs \<Longrightarrow> map_of (zip [0..<length jobs] jobs) i = Some (jobs ! i)"
  using map_of_zip_nth [of "[0..<length jobs]" jobs i] by simp

lemma as_completed_loop_unbound:
  "fs \<noteq> [] \<Longrightarrow> as_completed_loop False fj done fs = ([], leave done NameError)"
  by (cases fs) auto

lemma as_completed_loop_all:
  "\<forall>(i, out)\<in>set fs. i < length jobs \<and> (\<exists>r. out = Inr r) \<Longrightarrow>
   as_completed_loop True (zip [0..<length jobs] jobs) done fs =
     (map (\<lambda>(i, out). (jobs ! i, projr out)) fs, if done then StopIteration else Blocked)"
  by (induction fs) (auto simp: futures_jobs_lookup)

lemma all_done_iff:
  "all_done ex \<longleftrightarrow> (\<forall>i<length (work_items ex). future_result ex i \<noteq> None)"
  by (auto simp: all_done_def list_all_iff)

lemma extlib_dispatch_unbound:
  assumes "1 \<le> n" and "jobs \<noteq> []" and "\<forall>i<length jobs. i \<in> set sched"
    and "dumps D worker = Inr fn" and "\<not> name_bound extra ''log''"
  shows "fst (extlib_dispatch D extra sched jobs worker n w) = ([], Raised NameError)"
proof -
  from dispatch_pool_done [OF assms(1,3), of "run_dill D fn" w] obtain ex where
    ex: "dispatch_pool sched jobs (run_dill D fn) n w = Inr ex" "work_items ex = jobs"
        "\<forall>i<length jobs. future_result ex i \<noteq> None"
    by blast
  from assms(2) ex(3) have "future_result ex 0 \<noteq> None" by auto
  then have ne: "finished ex \<noteq> []" by (auto simp: future_result_def)
  have ad: "all_done ex" using ex(2,3) by (simp add: all_done_iff)
  show ?thesis
    using assms(4,5) by (simp add: extlib_dispatch_def ex(1) as_completed_loop_unbound [OF ne] ad leave_def)
qed

text \<open>
  With \<open>log\<close> bound and a worker that returns on every job, the generator yields one pair
  for each job, each job once, and each with a value the worker returned on it.
\<close>

lemma extlib_dispatch_complete:
  assumes "1 \<le> n" and "\<forall>i<length jobs. i \<in> set sched"
    and "dumps D worker = Inr fn" and "name_bound extra ''log''"
    and "\<forall>j\<in>set jobs. \<forall>w'. \<exists>r. fst (run_dill D fn j w') = Inr r"
  shows "\<exists>ys. fst (extlib_dispatch D extra sched jobs worker n w) = (ys, StopIteration) \<and>
           length ys = length jobs \<and> mset (map fst ys) = mset jobs \<and>
           (\<forall>(j, r)\<in>set ys. \<exists>wi. fst (run_dill D fn j wi) = Inr r)"
proof -
  from dispatch_pool_done [OF assms(1,2), of "run_dill D fn" w] obtain ex where
    ex: "dispatch_pool sched jobs (run_dill D fn) n w = Inr ex" "work_items ex = jobs"
        "pool_inv (run_dill D fn) ex" "\<forall>i<length jobs. future_result ex i \<noteq> None"
    by blast
  let ?ys = "map (\<lambda>(i, out). (jobs ! i, projr out)) (finished ex)"
  have ad: "all_done ex" using ex(2,4) by (simp add: all_done_iff)
  have fin: "\<forall>(i, out)\<in>set (finished ex).
      i < length jobs \<and> (\<exists>wi. fst (run_dill D fn (jobs ! i) wi) = out)"
    using ex(2,3) unfolding pool_inv_def by auto
  have ok: "\<forall>(i, out)\<in>set (finished ex). i < length jobs \<and> (\<exists>r. out = Inr r)"
  proof (clarify)
    fix i out assume m: "(i, out) \<in> set (finished ex)"
    with fin obtain wi where i: "i < length jobs" and o: "fst (run_dill D fn (jobs ! i) wi) = out"
      by auto
    from assms(5) i obtain r where "fst (run_dill D fn (jobs ! i) wi) = Inr r"
      using nth_mem by blast
    with i o show "i < length jobs \<and> (\<exists>r. out = Inr r)" by auto
  qed
  have "fst (extlib_dispatch D extra sched jobs worker n w) = (?ys, StopIteration)"
    using assms(3,4) by (simp add: extlib_dispatch_def ex(1) as_completed_loop_all [OF ok] ad)
  moreover have c: "map fst ?ys = calls ex"
    using ex(2,3) unfolding pool_inv_def by (auto simp: case_prod_beta)
  have m: "mset (calls ex) = mset jobs"
    using pool_inv_calls [OF ex(3)] ex(2,4) by simp
  have "mset (map fst ?ys) = mset jobs"
    by (simp only: c m)
  moreover have "length ?ys = length jobs"
    using c m by (metis length_map size_mset)
  moreover have "\<forall>(j, r)\<in>set ?ys. \<exists>wi. fst (run_dill D fn j wi) = Inr r"
  proof (clarify)
    fix j r assume "(j, r) \<in> set ?ys"
    then obtain i out where m: "(i, out) \<in> set (finished ex)" and j: "j = jobs ! i"
      and r: "r = projr out" by auto
    from ok m obtain r' where "out = Inr r'" by auto
    with fin m j r show "\<exists>wi. fst (run_dill D fn j wi) = Inr r" by auto
  qed
  ultimately show ?thesis by blast
qed

section \<open>The concrete inputs evaluated\<close>

lemma str_int_small [simp]: "str_int 0 = ''0''" "str_int 1 = ''1''" "str_int 40 = ''40''"
  by (simp_all add: str_int_def str_nat.simps)

lemma env_simps [simp]:
  "cwd env_ok = [''bh'']"
  "environ env_ok ''SLURM_CPUS_PER_TASK'' = Some ''4''"
  "environ env_ok ''SLURM_NTASKS'' = Some ''2''"
  "sha1_hexdigest env_ok = sha1_known"
  "process env_ok = r_program"
  "cwd env_exit1 = [''bh'']"
  "environ env_exit1 ''SLURM_CPUS_PER_TASK'' = Some ''4''"
  "sha1_hexdigest env_exit1 = sha1_known"
  "process env_exit1 = r_program_exit1"
  "cwd env_missing = [''bh'']"
  "environ env_missing ''SLURM_CPUS_PER_TASK'' = Some ''4''"
  "sha1_hexdigest env_missing = sha1_known"
  "process env_missing = r_program_missing"
  by (simp_all add: env_ok_def env_exit1_def env_missing_def)

lemma out_dir_tiles [simp]:
  "out_dir env_ok tile1 = [''bh'', ''export'', ''3ba435b4b1ca6000b9850091d18814c4305817de'']"
  "out_dir env_ok tile2 = [''bh'', ''export'', ''d38163975910e1a611c93f5c3e8886419d4e75a2'']"
  "out_dir env_exit1 = out_dir env_ok"
  "out_dir env_missing = out_dir env_ok"
  by (simp_all add: out_dir_def poly_hash_def sha1_known_def tile1_def tile2_def fun_eq_iff
      Abs_hexdigest_inverse)

lemma run_job_alt:
  "run_job worker ex i =
     (if i < length (work_items ex) \<and> future_result ex i = None then
        ex\<lparr>finished := finished ex @ [(i, fst (worker (work_items ex ! i) (world ex)))],
           calls := calls ex @ [work_items ex ! i],
           world := snd (worker (work_items ex ! i) (world ex))\<rparr>
      else ex)"
  by (simp add: run_job_def split: prod.splits)

lemma dispatch_two:
  "dispatch [0, Suc 0] [a, b] wk 1 w =
     Some (collect [fst (wk a w), fst (wk b (snd (wk a w)))], [a, b],
           snd (wk b (snd (wk a w))))"
  by (simp add: dispatch_def dispatch_pool_def ProcessPoolExecutor_def submit_def
      run_job_alt future_result_def)

lemma r_program_tile:
  "r_program (cmd env_ok cpus j) w =
     Inr (''metrics written'' @ NL, 0,
          w\<lparr>files := (files w)(split_path (str_path (out_dir env_ok j)) @ [''DONE''] \<mapsto> [])\<rparr>)"
  by (simp add: r_program_def cmd_def)

lemma job_ready_tiles:
  "job_ready env_ok tile1 world0" "job_ready env_ok tile2 world0"
  "\<not> path_exists (done_path env_ok tile1) world0"
  "\<not> path_exists (done_path env_ok tile2) world0"
  by (simp_all add: job_ready_def world0_def log_path_def done_path_def path_exists_def)

lemmas worker_env_ok = worker_ready [where E = env_ok and cpus = "''4''", OF _ env_simps(2)]

lemma worker_ok_run:
  assumes "j = tile1 \<or> j = tile2" and "job_ready env_ok j w"
    and "\<not> path_exists (done_path env_ok j) w"
  shows "fst (grid_metrics_chm_worker env_ok j w) = Inr (Some 0)"
    and "dirs (snd (grid_metrics_chm_worker env_ok j w)) = insert (out_dir env_ok j) (dirs w)"
    and "q \<noteq> log_path env_ok j \<Longrightarrow>
         files (snd (grid_metrics_chm_worker env_ok j w)) q =
           (if q = done_path env_ok j then Some [] else files w q)"
proof -
  have s: "split_path (str_path (out_dir env_ok j)) @ [''DONE''] = done_path env_ok j"
    using assms(1) by (auto simp: done_path_def split_path_def str_path_def)
  have w: "grid_metrics_chm_worker env_ok j w =
      (Inr (Some 0),
       append_file (log_path env_ok j)
         (log_footer (Some 0) ((prepared env_ok j w)
            \<lparr>files := (files (prepared env_ok j w))(done_path env_ok j \<mapsto> [])\<rparr>))
         (append_file (log_path env_ok j) (''metrics written'' @ NL)
            ((prepared env_ok j w)
               \<lparr>files := (files (prepared env_ok j w))(done_path env_ok j \<mapsto> [])\<rparr>)))"
    using assms(3) by (simp add: worker_env_ok [OF assms(2)] r_program_tile s)
  show "fst (grid_metrics_chm_worker env_ok j w) = Inr (Some 0)"
    by (simp add: w)
  show "dirs (snd (grid_metrics_chm_worker env_ok j w)) = insert (out_dir env_ok j) (dirs w)"
    by (simp add: w)
  show "q \<noteq> log_path env_ok j \<Longrightarrow>
        files (snd (grid_metrics_chm_worker env_ok j w)) q =
          (if q = done_path env_ok j then Some [] else files w q)"
    by (simp add: w prepared_def)
qed

lemma job_ready_after_run:
  assumes "j = tile1 \<or> j = tile2" and "job_ready env_ok j w"
    and "\<not> path_exists (done_path env_ok j) w" and "job_ready env_ok k w"
  shows "job_ready env_ok k (snd (grid_metrics_chm_worker env_ok j w))"
proof -
  have 1: "out_dir env_ok k \<noteq> log_path env_ok j" "out_dir env_ok k \<noteq> done_path env_ok j"
    "log_path env_ok k \<noteq> out_dir env_ok j"
    by (simp_all add: out_dir_def log_path_def done_path_def)
  show ?thesis
    using assms(4) 1
    by (simp add: job_ready_def worker_ok_run(2,3) [OF assms(1-3)])
qed

lemma done_after_run:
  assumes "j = tile1 \<or> j = tile2" and "job_ready env_ok j w"
    and "\<not> path_exists (done_path env_ok j) w"
  shows "path_exists (done_path env_ok j) (snd (grid_metrics_chm_worker env_ok j w))"
    and "path_exists p w \<Longrightarrow> path_exists p (snd (grid_metrics_chm_worker env_ok j w))"
proof -
  show "path_exists (done_path env_ok j) (snd (grid_metrics_chm_worker env_ok j w))"
    by (simp add: path_exists_def worker_ok_run(3) [OF assms])
  show "path_exists p w \<Longrightarrow> path_exists p (snd (grid_metrics_chm_worker env_ok j w))"
    using worker_ok_run(3) [OF assms, of p] worker_env_ok [OF assms(2)] assms(3)
    by (cases "p = log_path env_ok j")
       (auto simp: path_exists_def worker_ok_run(2) [OF assms] r_program_tile)
qed

lemma done_tile2_after_tile1:
  assumes "job_ready env_ok tile1 w" and "\<not> path_exists (done_path env_ok tile1) w"
    and "\<not> path_exists (done_path env_ok tile2) w"
  shows "\<not> path_exists (done_path env_ok tile2) (snd (grid_metrics_chm_worker env_ok tile1 w))"
proof -
  have n: "done_path env_ok tile2 \<noteq> log_path env_ok tile1"
    "done_path env_ok tile2 \<noteq> done_path env_ok tile1"
    "done_path env_ok tile2 \<noteq> out_dir env_ok tile1"
    by (simp_all add: done_path_def log_path_def)
  have t: "tile1 = tile1 \<or> tile1 = tile2" by simp
  show ?thesis
    using assms(3) n
    by (simp add: path_exists_def worker_ok_run(2,3) [OF t assms(1,2)])
qed

lemma env_exit1_paths:
  "log_path env_exit1 = log_path env_ok" "done_path env_exit1 = done_path env_ok"
  by (simp_all add: log_path_def done_path_def fun_eq_iff)

lemma job_ready_exit1: "job_ready env_exit1 j w = job_ready env_ok j w"
  by (simp add: job_ready_def env_exit1_paths)

lemmas worker_env_exit1 =
  worker_ready [where E = env_exit1 and cpus = "''4''", OF _ env_simps(7)]

lemma worker_exit1_run:
  assumes "job_ready env_ok j w" and "\<not> path_exists (done_path env_ok j) w"
  shows "fst (grid_metrics_chm_worker env_exit1 j w) = Inr (Some 1)"
    and "job_ready env_ok k w \<Longrightarrow>
         job_ready env_ok k (snd (grid_metrics_chm_worker env_exit1 j w))"
    and "\<not> path_exists (done_path env_ok k) w \<Longrightarrow>
         \<not> path_exists (done_path env_ok k) (snd (grid_metrics_chm_worker env_exit1 j w))"
proof -
  have w: "grid_metrics_chm_worker env_exit1 j w =
      (Inr (Some 1),
       append_file (log_path env_ok j) (log_footer (Some 1) (prepared env_exit1 j w))
         (append_file (log_path env_ok j) (''Execution halted'' @ NL)
            (prepared env_exit1 j w)))"
    using assms
    by (simp add: worker_env_exit1 r_program_exit1_def env_exit1_paths job_ready_exit1)
  have n: "out_dir env_ok k \<noteq> log_path env_ok j" "log_path env_ok k \<noteq> out_dir env_ok j"
    "done_path env_ok k \<noteq> log_path env_ok j" "done_path env_ok k \<noteq> out_dir env_ok j"
    by (simp_all add: out_dir_def log_path_def done_path_def)
  show "fst (grid_metrics_chm_worker env_exit1 j w) = Inr (Some 1)"
    by (simp add: w)
  show "job_ready env_ok k w \<Longrightarrow>
        job_ready env_ok k (snd (grid_metrics_chm_worker env_exit1 j w))"
    using n by (simp add: w job_ready_def prepared_def env_exit1_paths)
  show "\<not> path_exists (done_path env_ok k) w \<Longrightarrow>
        \<not> path_exists (done_path env_ok k) (snd (grid_metrics_chm_worker env_exit1 j w))"
    using n by (simp add: w path_exists_def prepared_def env_exit1_paths)
qed

lemma main_env:
  "MAX_WORKERS env_exit1 = Inr 1"
  "files world0 (cwd env_exit1 @ [''wkt.json'']) = Some ''[...]''"
  "json_load env_exit1 ''[...]'' = Inr [tile1, tile2]"
  by (simp_all add: MAX_WORKERS_def env_exit1_def env_ok_def int_known_def world0_def)

lemma main_env_simps:
  "files world0 [''bh'', ''wkt.json''] = Some ''[...]''"
  "json_load env_exit1 text = Inr [tile1, tile2]"
  by (simp_all add: env_exit1_def env_ok_def world0_def)

lemma main_exit1:
  "main env_exit1 sched world0 =
     (case dispatch sched [tile1, tile2] (grid_metrics_chm_worker env_exit1) 1 world0 of
        None \<Rightarrow> None
      | Some (Inl e, cs, w') \<Rightarrow> Some 1
      | Some (Inr rs, cs, w') \<Rightarrow> Some 0)"
  by (simp add: main_def main_env(1) main_env_simps)

section \<open>The claims\<close>

text \<open>
  C1. The worker looks for the \<open>DONE\<close> marker of the job's digest-named directory before
  it starts the external program, and with the marker present it is meant to skip the
  job and return \<open>None\<close>. It does not: the skip notice of line 119 is a \<open>str\<close> written to
  a log opened in binary mode, so the write raises \<open>TypeError\<close>. In the scenario of
  section 8 of the specification the first run of the two jobs returns \<open>[0, 0]\<close> and
  leaves both markers; in the world it leaves, the worker raises \<open>TypeError\<close> on the
  first job, and the second run of the batch raises \<open>TypeError\<close> instead of reporting
  the jobs as skipped.
\<close>

theorem rerun_raises_TypeError:
  "map_option fst (dispatch [0, 1] [tile1, tile2] (grid_metrics_chm_worker env_ok) 1 world0) =
     Some (Inr [Some 0, Some 0]) \<and>
   path_exists (done_path env_ok tile1) world1 \<and>
   path_exists (done_path env_ok tile2) world1 \<and>
   fst (grid_metrics_chm_worker env_ok tile1 world1) = Inl TypeError \<and>
   map_option fst (dispatch [0, 1] [tile1, tile2] (grid_metrics_chm_worker env_ok) 1 world1) =
     Some (Inl TypeError)"
proof -
  let ?wk = "grid_metrics_chm_worker env_ok"
  let ?WA = "snd (?wk tile1 world0)"
  let ?WB = "snd (?wk tile2 ?WA)"
  have t1: "tile1 = tile1 \<or> tile1 = tile2" and t2: "tile2 = tile1 \<or> tile2 = tile2"
    by simp_all
  note r = job_ready_tiles
  have a: "fst (?wk tile1 world0) = Inr (Some 0)"
    by (rule worker_ok_run(1) [OF t1 r(1) r(3)])
  have ra2: "job_ready env_ok tile2 ?WA"
    by (rule job_ready_after_run [OF t1 r(1) r(3) r(2)])
  have ra1: "job_ready env_ok tile1 ?WA"
    by (rule job_ready_after_run [OF t1 r(1) r(3) r(1)])
  have da1: "path_exists (done_path env_ok tile1) ?WA"
    by (rule done_after_run(1) [OF t1 r(1) r(3)])
  have da2: "\<not> path_exists (done_path env_ok tile2) ?WA"
    by (rule done_tile2_after_tile1 [OF r(1) r(3) r(4)])
  have b: "fst (?wk tile2 ?WA) = Inr (Some 0)"
    by (rule worker_ok_run(1) [OF t2 ra2 da2])
  have rb1: "job_ready env_ok tile1 ?WB"
    by (rule job_ready_after_run [OF t2 ra2 da2 ra1])
  have db2: "path_exists (done_path env_ok tile2) ?WB"
    by (rule done_after_run(1) [OF t2 ra2 da2])
  have db1: "path_exists (done_path env_ok tile1) ?WB"
    by (rule done_after_run(2) [OF t2 ra2 da2 da1])
  have first: "dispatch [0, 1] [tile1, tile2] ?wk 1 world0 =
      Some (Inr [Some 0, Some 0], [tile1, tile2], ?WB)"
    by (simp add: dispatch_two a b)
  then have w1: "world1 = ?WB" by (simp add: world1_def)
  have skip: "fst (?wk tile1 world1) = Inl TypeError"
    using rb1 db1 by (simp add: w1 worker_env_ok)
  have second: "map_option fst (dispatch [0, 1] [tile1, tile2] ?wk 1 world1) =
      Some (Inl TypeError)"
    by (simp add: dispatch_two skip)
  from first w1 db1 db2 skip second show ?thesis by simp
qed

text \<open>
  C2. For a batch whose jobs all complete, with a pool of at least one worker: the
  worker is invoked exactly once on every job whatever the other jobs' outcomes; when
  no invocation raises, \<open>dispatch\<close> returns the list of the values, a non-zero exit code
  among them at its job's index; when an invocation raises, \<open>dispatch\<close> raises the
  exception of the first such job in submission order, after all jobs have run, and
  returns no list. \<open>main\<close> drops the list: the script ends with status 0 exactly when
  \<open>dispatch\<close> returns a list, whatever the exit codes in it, and with status 1 exactly
  when \<open>dispatch\<close> raises.
\<close>

theorem job_failure_semantics:
  assumes "1 \<le> n" and "\<forall>i<length jobs. i \<in> set sched"
  shows "(\<exists>outs cs w'. dispatch sched jobs worker n w = Some (collect outs, cs, w') \<and>
            length outs = length jobs \<and>
            mset cs = mset jobs \<and>
            (\<forall>i<length jobs. \<exists>wi. fst (worker (jobs ! i) wi) = outs ! i) \<and>
            ((\<forall>out\<in>set outs. \<exists>r. out = Inr r) \<longrightarrow> collect outs = Inr (map projr outs)) \<and>
            (\<forall>i e. i < length jobs \<and> outs ! i = Inl e \<and> (\<forall>k<i. \<exists>r. outs ! k = Inr r) \<longrightarrow>
               collect outs = Inl e)) \<and>
         (MAX_WORKERS E = Inr n \<and> files v (cwd E @ [''wkt.json'']) = Some text \<and>
          json_load E text = Inr wkt_list \<longrightarrow>
            (main E sched v = Some 0 \<longleftrightarrow>
               (\<exists>rs cs v'. dispatch sched wkt_list (grid_metrics_chm_worker E) n v =
                  Some (Inr rs, cs, v'))) \<and>
            (main E sched v = Some 1 \<longleftrightarrow>
               (\<exists>e cs v'. dispatch sched wkt_list (grid_metrics_chm_worker E) n v =
                  Some (Inl e, cs, v'))))"
proof -
  from dispatch_done [OF assms, of worker w] obtain outs cs w' where
    d: "dispatch sched jobs worker n w = Some (collect outs, cs, w')"
       "length outs = length jobs" "mset cs = mset jobs"
       "\<forall>i<length jobs. \<exists>wi. fst (worker (jobs ! i) wi) = outs ! i"
    by blast
  have 1: "(\<forall>out\<in>set outs. \<exists>r. out = Inr r) \<longrightarrow> collect outs = Inr (map projr outs)"
    by (simp add: collect_all)
  have 2: "\<forall>i e. i < length jobs \<and> outs ! i = Inl e \<and> (\<forall>k<i. \<exists>r. outs ! k = Inr r) \<longrightarrow>
      collect outs = Inl e"
    using collect_first_raise [of _ outs] d(2) by auto
  have 3: "MAX_WORKERS E = Inr n \<and> files v (cwd E @ [''wkt.json'']) = Some text \<and>
          json_load E text = Inr wkt_list \<longrightarrow>
            (main E sched v = Some 0 \<longleftrightarrow>
               (\<exists>rs cs v'. dispatch sched wkt_list (grid_metrics_chm_worker E) n v =
                  Some (Inr rs, cs, v'))) \<and>
            (main E sched v = Some 1 \<longleftrightarrow>
               (\<exists>e cs v'. dispatch sched wkt_list (grid_metrics_chm_worker E) n v =
                  Some (Inl e, cs, v')))"
    by (auto simp: main_def split: option.splits sum.splits)
  from d 1 2 3 show ?thesis by blast
qed

text \<open>
  The statement at a worker that raises on the second of three jobs, and at the batch
  of two jobs whose external program exits with code 1.
\<close>

theorem job_failure_semantics_witness:
  "(\<exists>cs w'. dispatch [2, 0, 1] [''A'', ''B'', ''C''] picky_worker 1 [] =
      Some (Inl (OtherError ''bad job''), cs, w') \<and> mset cs = mset [''A'', ''B'', ''C'']) \<and>
   (main env_exit1 [2, 0, 1] world0 = Some 0 \<longleftrightarrow>
      (\<exists>rs cs v'. dispatch [2, 0, 1] [tile1, tile2] (grid_metrics_chm_worker env_exit1) 1 world0 =
         Some (Inr rs, cs, v')))"
proof -
  let ?jobs = "[''A'', ''B'', ''C'']"
  have h1: "(1::int) \<le> 1" by simp
  have h2: "\<forall>i<length ?jobs. i \<in> set [2, 0, 1::nat]"
    by (auto simp: less_Suc_eq)
  note t = job_failure_semantics [OF h1 h2, of picky_worker "[]" env_exit1 world0 "''[...]''"
      "[tile1, tile2]"]
  from t obtain outs cs w' where
    d: "dispatch [2, 0, 1] ?jobs picky_worker 1 [] = Some (collect outs, cs, w')"
    and len: "length outs = length ?jobs"
    and cs: "mset cs = mset ?jobs"
    and outs: "\<forall>i<length ?jobs. \<exists>wi. fst (picky_worker (?jobs ! i) wi) = outs ! i"
    and raise: "\<forall>i e. i < length ?jobs \<and> outs ! i = Inl e \<and> (\<forall>k<i. \<exists>r. outs ! k = Inr r) \<longrightarrow>
                 collect outs = Inl e"
    by blast
  from outs have o0: "outs ! 0 = Inr ''A!''"
    by (auto simp: picky_worker_def)
  from outs [THEN spec, of 1] have o1: "outs ! 1 = Inl (OtherError ''bad job'')"
    by (auto simp: picky_worker_def)
  have "collect outs = Inl (OtherError ''bad job'')"
    using raise [THEN spec, of 1] o0 o1 by auto
  with d cs have a: "\<exists>cs w'. dispatch [2, 0, 1] ?jobs picky_worker 1 [] =
      Some (Inl (OtherError ''bad job''), cs, w') \<and> mset cs = mset ?jobs"
    by auto
  from t main_env have "main env_exit1 [2, 0, 1] world0 = Some 0 \<longleftrightarrow>
      (\<exists>rs cs v'. dispatch [2, 0, 1] [tile1, tile2] (grid_metrics_chm_worker env_exit1) 1 world0 =
         Some (Inr rs, cs, v'))"
    by blast
  with a show ?thesis by blast
qed

text \<open>
  Both jobs of the batch exit with code 1, \<open>dispatch\<close> returns \<open>[1, 1]\<close>, and the script
  ends with status 0: no aggregate failure is reported.
\<close>

theorem nonzero_exit_status_zero_counterexample:
  "map_option fst
     (dispatch [0, 1] [tile1, tile2] (grid_metrics_chm_worker env_exit1) 1 world0) =
     Some (Inr [Some 1, Some 1]) \<and>
   main env_exit1 [0, 1] world0 = Some 0"
proof -
  let ?wk = "grid_metrics_chm_worker env_exit1"
  note r = job_ready_tiles
  have a: "fst (?wk tile1 world0) = Inr (Some 1)"
    by (rule worker_exit1_run(1) [OF r(1) r(3)])
  have b: "fst (?wk tile2 (snd (?wk tile1 world0))) = Inr (Some 1)"
    by (rule worker_exit1_run(1)
          [OF worker_exit1_run(2) [OF r(1) r(3) r(2)] worker_exit1_run(3) [OF r(1) r(3) r(4)]])
  have d: "dispatch [0, 1] [tile1, tile2] ?wk 1 world0 =
      Some (Inr [Some 1, Some 1], [tile1, tile2], snd (?wk tile2 (snd (?wk tile1 world0))))"
    by (simp add: dispatch_two a b)
  then have "main env_exit1 [0, 1] world0 = Some 0"
    by (simp add: main_exit1)
  with d show ?thesis by simp
qed

text \<open>
  C3. Ordered dispatch, for every job sequence, every worker and every completion
  order, with a pool of at least one worker. All jobs are submitted first, and the call
  does not return while a job has not completed. Once all have, the worker has been
  invoked exactly once on every job, and the \<open>i\<close>-th future holds what the invocation on
  the \<open>i\<close>-th job returned or raised. When every invocation returned, \<open>dispatch\<close> returns
  the list of the returned values, as long as the input and aligned with it; for a
  worker whose value depends on the job alone this is the image of the input. When an
  invocation raised, \<open>dispatch\<close> returns no list: it raises the exception of the first
  job, in input order, whose invocation raised.
\<close>

theorem dispatch_index_aligned:
  assumes "1 \<le> n"
  shows "((\<exists>i<length jobs. i \<notin> set sched) \<longrightarrow> dispatch sched jobs worker n w = None) \<and>
         ((\<forall>i<length jobs. i \<in> set sched) \<longrightarrow>
            (\<exists>ex. dispatch_pool sched jobs worker n w = Inr ex \<and>
               work_items ex = jobs \<and>
               mset (calls ex) = mset jobs \<and>
               (\<forall>i<length jobs. \<exists>out wi. future_result ex i = Some out \<and>
                    fst (worker (jobs ! i) wi) = out) \<and>
               ((\<forall>i<length jobs. \<exists>r. future_result ex i = Some (Inr r)) \<longrightarrow>
                  (\<exists>rs. dispatch sched jobs worker n w = Some (Inr rs, calls ex, world ex) \<and>
                     length rs = length jobs \<and>
                     (\<forall>i<length jobs. future_result ex i = Some (Inr (rs ! i))))) \<and>
               (\<forall>i e. i < length jobs \<and> future_result ex i = Some (Inl e) \<and>
                    (\<forall>k<i. \<exists>r. future_result ex k = Some (Inr r)) \<longrightarrow>
                  dispatch sched jobs worker n w = Some (Inl e, calls ex, world ex)) \<and>
               (\<forall>f. (\<forall>j\<in>set jobs. \<forall>w'. fst (worker j w') = Inr (f j)) \<longrightarrow>
                  dispatch sched jobs worker n w = Some (Inr (map f jobs), calls ex, world ex))))"
proof (intro conjI impI)
  assume "\<exists>i<length jobs. i \<notin> set sched"
  then obtain i where "i < length jobs" and "i \<notin> set sched" by blast
  then show "dispatch sched jobs worker n w = None"
    by (rule dispatch_blocks [OF assms])
next
  assume all: "\<forall>i<length jobs. i \<in> set sched"
  from dispatch_pool_done [OF assms all, of worker w] obtain ex where
    p: "dispatch_pool sched jobs worker n w = Inr ex" and wi: "work_items ex = jobs"
    and inv: "pool_inv worker ex" and dn: "\<forall>i<length jobs. future_result ex i \<noteq> None"
    by blast
  let ?outs = "map (\<lambda>i. the (future_result ex i)) [0..<length jobs]"
  have d: "dispatch sched jobs worker n w = Some (collect ?outs, calls ex, world ex)"
    by (rule dispatch_of_pool [OF p wi dn])
  have cs: "mset (calls ex) = mset jobs"
    using pool_inv_calls [OF inv] wi dn by simp
  have res: "\<forall>i<length jobs. \<exists>out wi. future_result ex i = Some out \<and>
      fst (worker (jobs ! i) wi) = out"
  proof (intro allI impI)
    fix i assume i: "i < length jobs"
    with dn obtain out where out: "future_result ex i = Some out" by auto
    from pool_inv_result [OF inv out] wi obtain wi' where
      "fst (worker (jobs ! i) wi') = out" by auto
    with out show "\<exists>out wi. future_result ex i = Some out \<and> fst (worker (jobs ! i) wi) = out"
      by blast
  qed
  have ok: "(\<forall>i<length jobs. \<exists>r. future_result ex i = Some (Inr r)) \<longrightarrow>
      (\<exists>rs. dispatch sched jobs worker n w = Some (Inr rs, calls ex, world ex) \<and>
         length rs = length jobs \<and>
         (\<forall>i<length jobs. future_result ex i = Some (Inr (rs ! i))))"
  proof
    assume a: "\<forall>i<length jobs. \<exists>r. future_result ex i = Some (Inr r)"
    then have "\<forall>out\<in>set ?outs. \<exists>r. out = Inr r" by auto
    then have c: "collect ?outs = Inr (map projr ?outs)" by (rule collect_all)
    have "\<forall>i<length jobs. future_result ex i = Some (Inr (map projr ?outs ! i))"
      using a by auto
    with d c show "\<exists>rs. dispatch sched jobs worker n w = Some (Inr rs, calls ex, world ex) \<and>
         length rs = length jobs \<and>
         (\<forall>i<length jobs. future_result ex i = Some (Inr (rs ! i)))"
      by (intro exI [of _ "map projr ?outs"]) simp
  qed
  have bad: "\<forall>i e. i < length jobs \<and> future_result ex i = Some (Inl e) \<and>
      (\<forall>k<i. \<exists>r. future_result ex k = Some (Inr r)) \<longrightarrow>
      dispatch sched jobs worker n w = Some (Inl e, calls ex, world ex)"
  proof (intro allI impI, elim conjE)
    fix i e
    assume i: "i < length jobs" and e: "future_result ex i = Some (Inl e)"
      and b: "\<forall>k<i. \<exists>r. future_result ex k = Some (Inr r)"
    have "collect ?outs = Inl e"
    proof (rule collect_first_raise [of i])
      show "i < length ?outs" using i by simp
      show "?outs ! i = Inl e" using i e by simp
      show "\<forall>k<i. \<exists>r. ?outs ! k = Inr r" using i b by auto
    qed
    with d show "dispatch sched jobs worker n w = Some (Inl e, calls ex, world ex)" by simp
  qed
  have pure: "\<forall>f. (\<forall>j\<in>set jobs. \<forall>w'. fst (worker j w') = Inr (f j)) \<longrightarrow>
      dispatch sched jobs worker n w = Some (Inr (map f jobs), calls ex, world ex)"
  proof (intro allI impI)
    fix f assume f: "\<forall>j\<in>set jobs. \<forall>w'. fst (worker j w') = Inr (f j)"
    have "?outs = map (\<lambda>j. Inr (f j)) jobs"
    proof (rule nth_equalityI)
      show "length ?outs = length (map (\<lambda>j. Inr (f j)) jobs)" by simp
    next
      fix i assume "i < length ?outs"
      then have i: "i < length jobs" by simp
      with res obtain out wi' where o: "future_result ex i = Some out"
        and v: "fst (worker (jobs ! i) wi') = out" by blast
      have "fst (worker (jobs ! i) wi') = Inr (f (jobs ! i))"
        using f i nth_mem by blast
      with o v i show "?outs ! i = map (\<lambda>j. Inr (f j)) jobs ! i" by simp
    qed
    moreover have "collect (map (\<lambda>j. Inr (f j)) jobs) = Inr (map f jobs)"
      by (induction jobs) simp_all
    ultimately show "dispatch sched jobs worker n w = Some (Inr (map f jobs), calls ex, world ex)"
      using d by simp
  qed
  from p wi cs res ok bad pure
  show "\<exists>ex. dispatch_pool sched jobs worker n w = Inr ex \<and>
               work_items ex = jobs \<and>
               mset (calls ex) = mset jobs \<and>
               (\<forall>i<length jobs. \<exists>out wi. future_result ex i = Some out \<and>
                    fst (worker (jobs ! i) wi) = out) \<and>
               ((\<forall>i<length jobs. \<exists>r. future_result ex i = Some (Inr r)) \<longrightarrow>
                  (\<exists>rs. dispatch sched jobs worker n w = Some (Inr rs, calls ex, world ex) \<and>
                     length rs = length jobs \<and>
                     (\<forall>i<length jobs. future_result ex i = Some (Inr (rs ! i))))) \<and>
               (\<forall>i e. i < length jobs \<and> future_result ex i = Some (Inl e) \<and>
                    (\<forall>k<i. \<exists>r. future_result ex k = Some (Inr r)) \<longrightarrow>
                  dispatch sched jobs worker n w = Some (Inl e, calls ex, world ex)) \<and>
               (\<forall>f. (\<forall>j\<in>set jobs. \<forall>w'. fst (worker j w') = Inr (f j)) \<longrightarrow>
                  dispatch sched jobs worker n w = Some (Inr (map f jobs), calls ex, world ex))"
    by (intro exI [of _ ex] conjI)
qed

text \<open>
  Three jobs on a pool of three of which the third completes first; and the same jobs
  when the second never completes.
\<close>

theorem dispatch_index_aligned_witness:
  "(\<exists>cs w'. dispatch [2, 0, 1] [''A'', ''B'', ''C''] echo_worker 3 [] =
      Some (Inr [''A!'', ''B!'', ''C!''], cs, w')) \<and>
   dispatch [2, 0] [''A'', ''B'', ''C''] echo_worker 3 [] = None"
proof -
  let ?jobs = "[''A'', ''B'', ''C'']"
  have h1: "(1::int) \<le> 3" by simp
  have h2: "\<forall>i<length ?jobs. i \<in> set [2, 0, 1::nat]"
    by (auto simp: less_Suc_eq)
  have h4: "\<exists>i<length ?jobs. i \<notin> set [2, 0::nat]"
    by (intro exI [of _ 1]) simp
  have f: "\<forall>j\<in>set ?jobs. \<forall>w'. fst (echo_worker j w') = Inr (j @ ''!'')"
    by (simp add: echo_worker_def)
  note t = dispatch_index_aligned [OF h1, of ?jobs "[2, 0, 1]" echo_worker "[]"]
  from t [THEN conjunct2, THEN mp, OF h2]
  have a: "\<exists>cs w'. dispatch [2, 0, 1] ?jobs echo_worker 3 [] =
      Some (Inr [''A!'', ''B!'', ''C!''], cs, w')"
  proof (elim exE conjE)
    fix ex
    assume p: "\<forall>f. (\<forall>j\<in>set ?jobs. \<forall>w'. fst (echo_worker j w') = Inr (f j)) \<longrightarrow>
       dispatch [2, 0, 1] ?jobs echo_worker 3 [] = Some (Inr (map f ?jobs), calls ex, world ex)"
    have "dispatch [2, 0, 1] ?jobs echo_worker 3 [] =
        Some (Inr (map (\<lambda>j. j @ ''!'') ?jobs), calls ex, world ex)"
      by (rule p [THEN spec, of "\<lambda>j. j @ ''!''", THEN mp]) (rule f)
    then show ?thesis by simp
  qed
  note u = dispatch_index_aligned [OF h1, of ?jobs "[2, 0]" echo_worker "[]"]
  have "dispatch [2, 0] ?jobs echo_worker 3 [] = None"
    by (rule u [THEN conjunct1, THEN mp, OF h4])
  with a show ?thesis by (rule conjI)
qed

text \<open>
  A worker that raises on the second of three jobs: all three run, and \<open>dispatch\<close> raises
  instead of returning a list of outcomes.
\<close>

theorem raising_worker_no_list_counterexample:
  "dispatch [0, 1, 2] [''A'', ''B'', ''C''] picky_worker 1 [] =
     Some (Inl (OtherError ''bad job''), [''A'', ''B'', ''C''], [''A'', ''B'', ''C''])"
  by (simp add: dispatch_def dispatch_pool_def ProcessPoolExecutor_def submit_def
      run_pool_def run_job_def future_result_def picky_worker_def)

text \<open>
  C4. Streaming dispatch is meant to yield one pair for every job. With the module's
  namespace as \<open>extlib.py\<close> defines it, it yields none: the three jobs run, and the
  generator raises \<open>NameError\<close> at the first completion.
\<close>

theorem streaming_dispatch_NameError:
  "extlib_dispatch dill_id [] [2, 0, 1] [''A'', ''B'', ''C''] echo_worker 1 [] =
     (([], Raised NameError), [''C'', ''A'', ''B''], [''C'', ''A'', ''B''])"
  by (simp add: extlib_dispatch_def dill_id_def dispatch_pool_def ProcessPoolExecutor_def
      submit_def run_job_def future_result_def run_dill_def echo_worker_def
      name_bound_def extlib_globals_def all_done_def leave_def)




text \<open>
  C8. A worker invocation that reaches its log, finds no marker, and whose external
  program starts, exits with a code and leaves the log file alone otherwise: it returns
  that code, and the log then holds what it held before, followed by the header (job
  and start time), the program's output, and the footer (end time and exit code), all
  of it in the file when the invocation returns.
\<close>

theorem log_header_output_footer:
  assumes "job_ready E j w"
    and "environ E ''SLURM_CPUS_PER_TASK'' = Some cpus"
    and "\<not> path_exists (done_path E j) w"
    and "process E (cmd E cpus j) (prepared E j w) = Inr (out, rc, w')"
    and "files w' (log_path E j) = files (prepared E j w) (log_path E j)"
  shows "\<exists>wf. grid_metrics_chm_worker E j w = (Inr (Some rc), wf) \<and>
           files wf (log_path E j) =
             Some (contents w (log_path E j) @
                   (''JOB: '' @ j @ NL @ ''STARTING: '' @ now w @ NL @ NL) @
                   out @
                   (NL @ ''FINISHED: '' @ now w' @ NL @ ''EXIT CODE: '' @ str_int rc @ NL))"
proof -
  have c: "contents w' (log_path E j) = contents (prepared E j w) (log_path E j)"
    using assms(5) by (simp add: contents_def)
  have "grid_metrics_chm_worker E j w =
      (Inr (Some rc), append_file (log_path E j) (log_footer (Some rc) w')
                        (append_file (log_path E j) out w'))"
    using assms(3,4) by (simp add: worker_ready [OF assms(1,2)])
  moreover have "files (append_file (log_path E j) (log_footer (Some rc) w')
                        (append_file (log_path E j) out w')) (log_path E j) =
      Some (contents w (log_path E j) @
            (''JOB: '' @ j @ NL @ ''STARTING: '' @ now w @ NL @ NL) @
            out @
            (NL @ ''FINISHED: '' @ now w' @ NL @ ''EXIT CODE: '' @ str_int rc @ NL))"
    by (simp add: c log_header_def log_footer_def timestamp_def str_rc_def)
  ultimately show ?thesis by simp
qed

text \<open>The first job of the scenario with the program that exits with code 1.\<close>

theorem log_header_output_footer_witness:
  "\<exists>wf. grid_metrics_chm_worker env_exit1 tile1 world0 = (Inr (Some 1), wf) \<and>
     files wf (log_path env_exit1 tile1) =
       Some (''JOB: '' @ tile1 @ NL @ ''STARTING: 2025-06-01 12:00'' @ NL @ NL @
             ''Execution halted'' @ NL @
             NL @ ''FINISHED: 2025-06-01 12:00'' @ NL @ ''EXIT CODE: 1'' @ NL)"
proof -
  have r: "job_ready env_exit1 tile1 world0"
    by (simp add: job_ready_def world0_def log_path_def)
  have e: "environ env_exit1 ''SLURM_CPUS_PER_TASK'' = Some ''4''" by simp
  have d: "\<not> path_exists (done_path env_exit1 tile1) world0"
    by (simp add: path_exists_def done_path_def world0_def)
  have p: "process env_exit1 (cmd env_exit1 ''4'' tile1) (prepared env_exit1 tile1 world0) =
      Inr (''Execution halted'' @ NL, 1, prepared env_exit1 tile1 world0)"
    by (simp add: r_program_exit1_def)
  have c: "contents world0 (log_path env_exit1 tile1) = []"
    by (simp add: contents_def log_path_def world0_def)
  have n: "now world0 = ''2025-06-01 12:00''" by (simp add: world0_def)
  from log_header_output_footer [OF r e d p refl] show ?thesis
    by (simp add: c n)
qed

text \<open>
  When the external program cannot be started, the invocation raises and the log holds
  the header alone: no footer is written.
\<close>

theorem launch_failure_no_footer_counterexample:
  "fst (grid_metrics_chm_worker env_missing tile1 world0) = Inl FileNotFoundError \<and>
   files (snd (grid_metrics_chm_worker env_missing tile1 world0)) (log_path env_missing tile1) =
     Some (''JOB: '' @ tile1 @ NL @ ''STARTING: 2025-06-01 12:00'' @ NL @ NL)"
proof -
  have r: "job_ready env_missing tile1 world0"
    by (simp add: job_ready_def world0_def log_path_def)
  have e: "environ env_missing ''SLURM_CPUS_PER_TASK'' = Some ''4''" by simp
  have d: "\<not> path_exists (done_path env_missing tile1) world0"
    by (simp add: path_exists_def done_path_def world0_def)
  have c: "contents world0 (log_path env_missing tile1) = []"
    by (simp add: contents_def log_path_def world0_def)
  show ?thesis
    by (simp add: worker_ready [OF r e] d r_program_missing_def c log_header_def timestamp_def)
      (simp add: world0_def)
qed

text \<open>
  C9. On the empty job sequence, with a pool of at least one worker, ordered dispatch
  returns the empty list, and streaming dispatch yields no pair and ends (or raises what
  \<open>dill.dumps\<close> raised); neither invokes the worker nor changes the world.
\<close>

theorem empty_batch:
  assumes "1 \<le> n"
  shows "dispatch sched [] worker n w = Some (Inr [], [], w) \<and>
         fst (fst (extlib_dispatch D extra sched [] worker' n w')) = [] \<and>
         snd (extlib_dispatch D extra sched [] worker' n w') = ([], w') \<and>
         (snd (fst (extlib_dispatch D extra sched [] worker' n w')) = StopIteration \<or>
          (\<exists>e. dumps D worker' = Inl e \<and>
               snd (fst (extlib_dispatch D extra sched [] worker' n w')) = Raised e))"
proof -
  have p: "\<And>wk v. dispatch_pool sched [] wk n v =
      Inr \<lparr>max_workers = n, work_items = [], finished = [], calls = [], world = v\<rparr>"
    using assms by (simp add: dispatch_pool_def ProcessPoolExecutor_def run_pool_no_jobs)
  have "dispatch sched [] worker n w = Some (Inr [], [], w)"
    by (simp add: dispatch_def p)
  moreover have "extlib_dispatch D extra sched [] worker' n w' =
      (case dumps D worker' of Inl e \<Rightarrow> (([], Raised e), [], w')
       | Inr fn \<Rightarrow> (([], StopIteration), [], w'))"
    by (simp add: extlib_dispatch_def p all_done_def split: sum.splits)
  ultimately show ?thesis by (auto split: sum.splits)
qed

text \<open>Both dispatchers on no jobs.\<close>

theorem empty_batch_witness:
  "dispatch [0, 1] [] echo_worker 1 [] = Some (Inr [], [], []) \<and>
   extlib_dispatch dill_id [] [0, 1] [] echo_worker 1 [] = (([], StopIteration), [], [])"
proof -
  have h: "(1::int) \<le> 1" by simp
  from empty_batch [OF h, of "[0, 1]" echo_worker "[]" dill_id "[]" echo_worker "[]"]
  show ?thesis by (auto simp: dill_id_def prod_eq_iff)
qed

text \<open>
  C10. \<open>extlib.py\<close> binds no global named \<open>log\<close>, so the name is found only when a caller
  has added it. For a non-empty batch whose jobs all complete, with a pool of at least
  one worker and a worker that \<open>dill\<close> serialises: without \<open>log\<close> the generator yields
  no pair and raises \<open>NameError\<close>; with \<open>log\<close> bound, and a worker that returns on every
  job, it yields as many pairs as there are jobs and ends.
\<close>

theorem streaming_log_unbound:
  assumes "1 \<le> n" and "jobs \<noteq> []" and "\<forall>i<length jobs. i \<in> set sched"
    and "dumps D worker = Inr fn"
  shows "''log'' \<notin> set extlib_globals \<and>
         (name_bound extra ''log'' \<longleftrightarrow> ''log'' \<in> set extra) \<and>
         (''log'' \<notin> set extra \<longrightarrow>
            fst (extlib_dispatch D extra sched jobs worker n w) = ([], Raised NameError)) \<and>
         (''log'' \<in> set extra \<and> (\<forall>j\<in>set jobs. \<forall>w'. \<exists>r. fst (run_dill D fn j w') = Inr r) \<longrightarrow>
            (\<exists>ys. fst (extlib_dispatch D extra sched jobs worker n w) = (ys, StopIteration) \<and>
                  length ys = length jobs))"
proof -
  have g: "''log'' \<notin> set extlib_globals" by (simp add: extlib_globals_def)
  then have b: "name_bound extra ''log'' \<longleftrightarrow> ''log'' \<in> set extra"
    by (simp add: name_bound_def)
  have "''log'' \<notin> set extra \<longrightarrow>
      fst (extlib_dispatch D extra sched jobs worker n w) = ([], Raised NameError)"
    using extlib_dispatch_unbound [OF assms] b by blast
  moreover have "''log'' \<in> set extra \<and>
      (\<forall>j\<in>set jobs. \<forall>w'. \<exists>r. fst (run_dill D fn j w') = Inr r) \<longrightarrow>
      (\<exists>ys. fst (extlib_dispatch D extra sched jobs worker n w) = (ys, StopIteration) \<and>
            length ys = length jobs)"
    using extlib_dispatch_complete [OF assms(1,3,4)] b by blast
  ultimately show ?thesis using g b by blast
qed

text \<open>Three jobs, without and with \<open>log\<close> in the namespace.\<close>

theorem streaming_log_unbound_witness:
  "fst (extlib_dispatch dill_id [] [2, 0, 1] [''A'', ''B'', ''C''] echo_worker 1 []) =
     ([], Raised NameError) \<and>
   (\<exists>ys. fst (extlib_dispatch dill_id [''log''] [2, 0, 1] [''A'', ''B'', ''C''] echo_worker 1 []) =
           (ys, StopIteration) \<and> length ys = 3)"
proof -
  have h1: "(1::int) \<le> 1" by simp
  have h2: "[''A'', ''B'', ''C''] \<noteq> []" by simp
  have h3: "\<forall>i<length [''A'', ''B'', ''C'']. i \<in> set [2, 0, 1::nat]"
    by (auto simp: less_Suc_eq)
  have h4: "dumps dill_id echo_worker = Inr echo_worker" by (simp add: dill_id_def)
  have h5: "\<forall>j\<in>set [''A'', ''B'', ''C'']. \<forall>w'. \<exists>r. fst (run_dill dill_id echo_worker j w') = Inr r"
    by (simp add: run_dill_def dill_id_def echo_worker_def)
  have h6: "''log'' \<notin> set ([] :: string list)" and h7: "''log'' \<in> set [''log'']"
    by simp_all
  from streaming_log_unbound [OF h1 h2 h3 h4, of "[]" "[]"] h6
  have a: "fst (extlib_dispatch dill_id [] [2, 0, 1] [''A'', ''B'', ''C''] echo_worker 1 []) =
     ([], Raised NameError)"
    by blast
  from streaming_log_unbound [OF h1 h2 h3 h4, of "[''log'']" "[]"] h5 h7
  obtain ys where
    "fst (extlib_dispatch dill_id [''log''] [2, 0, 1] [''A'', ''B'', ''C''] echo_worker 1 []) =
       (ys, StopIteration)" and "length ys = length [''A'', ''B'', ''C'']"
    by blast
  with a show ?thesis by simp
qed

end
